theory Spec2Isabelle
  imports Complex_Main
begin

section \<open>Data model of \<^verbatim>\<open>scripts/main.py\<close>\<close>

text \<open>
  The game object of \<^verbatim>\<open>BreakoutGame\<close> is a record that every method takes and returns.
  Python \<^verbatim>\<open>int\<close> values are \<^typ>\<open>int\<close>; attributes that hold Python floats (ball and
  paddle coordinates, velocities, gravity) are \<^typ>\<open>real\<close>, so floating-point rounding is
  not part of the model. The indicator attributes \<^verbatim>\<open>angle\<close>, \<^verbatim>\<open>angle_direction\<close> and
  \<^verbatim>\<open>angle_cycle_speed\<close> are annotated \<^verbatim>\<open>float\<close> in the source, but the only values ever
  assigned to them are the integer literals \<^verbatim>\<open>0\<close>, \<^verbatim>\<open>1\<close>, \<^verbatim>\<open>2\<close> and results of
  integer \<^verbatim>\<open>+\<close>, \<^verbatim>\<open>*\<close> and unary \<^verbatim>\<open>-\<close> on them, so at run time they are Python ints.
\<close>

datatype GameState = READY | RUNNING | DROPPED | GAME_OVER | WIN

record GameStats =
  score :: int
  lives :: int

text \<open>\<^verbatim>\<open>GameStats()\<close>: the dataclass defaults.\<close>

definition new_GameStats :: GameStats where
  "new_GameStats = \<lparr>score = 0, lives = 0\<rparr>"

text \<open>
  The classes \<^verbatim>\<open>Ball\<close>, \<^verbatim>\<open>Paddle\<close> and \<^verbatim>\<open>Brick\<close> are imported by \<^verbatim>\<open>main.py\<close> from
  modules that are not part of the sources. The records hold the attributes that
  \<^verbatim>\<open>main.py\<close> reads or writes (\<^verbatim>\<open>x\<close>, \<^verbatim>\<open>y\<close>, \<^verbatim>\<open>r\<close>, \<^verbatim>\<open>speed_x\<close>, \<^verbatim>\<open>speed_y\<close>,
  \<^verbatim>\<open>out_of_bounds\<close>; \<^verbatim>\<open>x\<close>, \<^verbatim>\<open>y\<close>, \<^verbatim>\<open>w\<close>; the three constructor arguments of a brick)
  together with the trail and the paddle height that the specification lists.
\<close>

record Ball =
  x :: real
  y :: real
  r :: real
  speed_x :: real
  speed_y :: real
  trails :: "(real \<times> real) list"
  out_of_bounds :: bool

record Paddle =
  x :: real
  y :: real
  w :: real
  h :: real

record Brick =
  x :: int
  y :: int
  brick_type :: int

text \<open>
  One entry of a stage in \<^verbatim>\<open>stages.json\<close>: a dictionary with the keys \<^verbatim>\<open>x\<close>, \<^verbatim>\<open>y\<close> and
  \<^verbatim>\<open>brick_type\<close>. A stage is the list under its key \<^verbatim>\<open>bricks\<close>. Dictionaries that lack
  one of these keys (a \<^verbatim>\<open>KeyError\<close> in \<^verbatim>\<open>_load_stage\<close>) are excluded by the types.
\<close>

record brick_dict =
  x :: int
  y :: int
  brick_type :: int

type_synonym stage = "brick_dict list"

datatype error = IndexError

text \<open>The argument of \<^verbatim>\<open>Ball.detect_collision\<close>: the paddle or one brick.\<close>

datatype target = PaddleObj Paddle | BrickObj Brick

text \<open>What one frame reads from pyxel: the three \<^verbatim>\<open>btnp\<close> values and the pointer.\<close>

record input =
  MOUSE_BUTTON_LEFT :: bool
  KEY_SPACE :: bool
  KEY_RETURN :: bool
  mouse_x :: int

text \<open>
  The methods of the absent classes that \<^verbatim>\<open>main.py\<close> calls are parameters of the model:
  \<^verbatim>\<open>Ball.update()\<close>, \<^verbatim>\<open>Ball.detect_collision(obj, is_paddle)\<close>, which returns the
  collision flag and may change the ball, and \<^verbatim>\<open>Paddle.update()\<close>, which reads the
  input. Every theorem about the game holds for all such collaborators.
\<close>

record collab =
  Ball_update :: "Ball \<Rightarrow> Ball"
  detect_collision :: "Ball \<Rightarrow> target \<Rightarrow> bool \<Rightarrow> bool \<times> Ball"
  Paddle_update :: "input \<Rightarrow> Paddle \<Rightarrow> Paddle"

record game =
  gravity :: real
  stats :: GameStats
  paddle :: Paddle
  angle :: int
  angle_direction :: int
  angle_cycle_speed :: int
  ball :: Ball
  stages :: "stage list"
  current_stage :: int
  bricks :: "Brick list"
  current_game_state :: GameState

section \<open>Library operations\<close>

text \<open>
  Python list indexing \<^verbatim>\<open>xs[i]\<close>: a negative index counts from the end, and an index
  outside \<^verbatim>\<open>-len(xs) .. len(xs) - 1\<close> raises \<^verbatim>\<open>IndexError\<close>.
\<close>

definition getitem :: "'a list \<Rightarrow> int \<Rightarrow> error + 'a" where
  "getitem xs i =
     (if 0 \<le> i \<and> i < int (length xs) then Inr (xs ! nat i)
      else if i < 0 \<and> - int (length xs) \<le> i then Inr (xs ! nat (int (length xs) + i))
      else Inl IndexError)"

text \<open>\<^verbatim>\<open>math.radians\<close>, over the reals.\<close>

definition radians :: "real \<Rightarrow> real" where
  "radians d = d * pi / 180"

text \<open>
  Modelled from the spec: \<^verbatim>\<open>Ball.clear_trails\<close> of the absent module \<^verbatim>\<open>ball.py\<close>. The
  specification says of the reset that it clears the trail, and of the trail that it
  is a sequence of recent positions used for rendering only.
\<close>

definition clear_trails :: "Ball \<Rightarrow> Ball" where
  "clear_trails b = b\<lparr>trails := []\<rparr>"

text \<open>The constructor call \<^verbatim>\<open>Brick(brick["x"], brick["y"], brick["brick_type"])\<close>.\<close>

definition new_Brick :: "brick_dict \<Rightarrow> Brick" where
  "new_Brick d = \<lparr>Brick.x = brick_dict.x d, y = brick_dict.y d,
                  brick_type = brick_dict.brick_type d\<rparr>"

section \<open>Stage management\<close>

definition load_stage :: "game \<Rightarrow> int \<Rightarrow> error + game" where
  "load_stage g stage_index =
     (case getitem (stages g) stage_index of
        Inl e \<Rightarrow> Inl e
      | Inr stage \<Rightarrow> Inr (g\<lparr>bricks := map new_Brick stage\<rparr>))"

definition reset_ball :: "game \<Rightarrow> game" where
  "reset_ball g =
     (let b1 = clear_trails (ball g);
          b2 = b1\<lparr>Ball.y := Paddle.y (paddle g) - Ball.r b1 * 2\<rparr>
      in g\<lparr>angle := 0, angle_direction := 1, angle_cycle_speed := 2,
            ball := b2\<lparr>speed_x := 0, speed_y := 0, out_of_bounds := False\<rparr>\<rparr>)"

definition next_stage :: "game \<Rightarrow> error + game" where
  "next_stage g =
     (if current_stage g < int (length (stages g)) then
        (let g1 = g\<lparr>current_stage := current_stage g + 1\<rparr>
         in case load_stage g1 (current_stage g1 - 1) of
              Inl e \<Rightarrow> Inl e
            | Inr g2 \<Rightarrow> Inr ((reset_ball g2)\<lparr>current_game_state := READY\<rparr>))
      else Inr (g\<lparr>current_game_state := WIN\<rparr>))"

section \<open>Helper methods\<close>

definition start_new_game :: "game \<Rightarrow> error + game" where
  "start_new_game g =
     (let g1 = g\<lparr>stats := new_GameStats, current_stage := 1\<rparr>
      in case load_stage g1 (current_stage g1 - 1) of
           Inl e \<Rightarrow> Inl e
         | Inr g2 \<Rightarrow> Inr ((reset_ball g2)\<lparr>current_game_state := READY\<rparr>))"

definition launch_ball :: "game \<Rightarrow> game" where
  "launch_ball g =
     (let angle_rad = radians (real_of_int (angle g))
      in g\<lparr>ball := (ball g)\<lparr>speed_x := cos angle_rad * 2.5,
                             speed_y := - sin angle_rad * 2.5\<rparr>,
            current_game_state := RUNNING\<rparr>)"

text \<open>
  The loop of \<^verbatim>\<open>_check_collision\<close> over \<^verbatim>\<open>reversed(range(len(self.bricks)))\<close>:
  \<open>scan_bricks c n b bs\<close> has the indices \<open>n - 1, \<dots>, 0\<close> still to visit. A hit deletes
  the brick at the index and leaves the loop.
\<close>

fun scan_bricks :: "collab \<Rightarrow> nat \<Rightarrow> Ball \<Rightarrow> Brick list \<Rightarrow> error + (Ball \<times> Brick list)" where
  "scan_bricks c 0 b bs = Inr (b, bs)"
| "scan_bricks c (Suc i) b bs =
     (if i < length bs then
        (case detect_collision c b (BrickObj (bs ! i)) False of
           (collision, b') \<Rightarrow>
             if collision then Inr (b', take i bs @ drop (Suc i) bs)
             else scan_bricks c i b' bs)
      else Inl IndexError)"

definition check_collision :: "collab \<Rightarrow> game \<Rightarrow> error + game" where
  "check_collision c g =
     (case detect_collision c (ball g) (PaddleObj (paddle g)) True of
        (collision, b1) \<Rightarrow>
          (case scan_bricks c (length (bricks g)) b1 (bricks g) of
             Inl e \<Rightarrow> Inl e
           | Inr (b2, bs) \<Rightarrow> Inr (g\<lparr>ball := b2, bricks := bs\<rparr>)))"

definition check_input :: "input \<Rightarrow> game \<Rightarrow> error + game" where
  "check_input i g =
     (let g1 = (if current_game_state g = READY \<and> (MOUSE_BUTTON_LEFT i \<or> KEY_SPACE i)
                then launch_ball g else g)
      in if (current_game_state g1 = GAME_OVER \<or> current_game_state g1 = WIN) \<and> KEY_RETURN i
         then start_new_game g1
         else Inr g1)"

section \<open>Update methods\<close>

definition update_ready_state :: "game \<Rightarrow> game" where
  "update_ready_state g =
     (let g1 = g\<lparr>ball := (ball g)\<lparr>Ball.x := Paddle.x (paddle g) + Paddle.w (paddle g) / 2
                                            - Ball.r (ball g)\<rparr>\<rparr>;
          g2 = g1\<lparr>angle := angle g1 + angle_direction g1 * angle_cycle_speed g1\<rparr>
      in if angle g2 = 180 \<or> angle g2 = 0
         then g2\<lparr>angle_direction := - angle_direction g2\<rparr>
         else g2)"

definition update_running_state :: "collab \<Rightarrow> game \<Rightarrow> error + game" where
  "update_running_state c g =
     (case check_collision c (g\<lparr>ball := Ball_update c (ball g)\<rparr>) of
        Inl e \<Rightarrow> Inl e
      | Inr g1 \<Rightarrow>
          (case (if bricks g1 = [] then
                   (if current_stage g1 = int (length (stages g1))
                    then Inr (g1\<lparr>current_game_state := WIN\<rparr>)
                    else next_stage g1)
                 else Inr g1) of
             Inl e \<Rightarrow> Inl e
           | Inr g2 \<Rightarrow>
               Inr (if out_of_bounds (ball g2)
                    then g2\<lparr>current_game_state := DROPPED\<rparr>
                    else g2)))"

definition update_dropped_state :: "game \<Rightarrow> game" where
  "update_dropped_state g =
     (let g1 = g\<lparr>stats := (stats g)\<lparr>lives := lives (stats g) - 1\<rparr>\<rparr>
      in if lives (stats g1) > 0
         then (reset_ball g1)\<lparr>current_game_state := READY\<rparr>
         else g1\<lparr>current_game_state := GAME_OVER\<rparr>)"

definition update :: "collab \<Rightarrow> input \<Rightarrow> game \<Rightarrow> error + game" where
  "update c i g =
     (case check_input i g of
        Inl e \<Rightarrow> Inl e
      | Inr g1 \<Rightarrow>
          (let g2 = g1\<lparr>paddle := Paddle_update c i (paddle g1)\<rparr>
           in case current_game_state g2 of
                READY \<Rightarrow> Inr (update_ready_state g2)
              | RUNNING \<Rightarrow> update_running_state c g2
              | DROPPED \<Rightarrow> Inr (update_dropped_state g2)
              | GAME_OVER \<Rightarrow> Inr g2
              | WIN \<Rightarrow> Inr g2))"

text \<open>
  The frame loop of \<^verbatim>\<open>pyxel.run\<close>: one \<open>update\<close> per frame, each with the input of
  that frame; an exception ends the run.
\<close>

fun run :: "collab \<Rightarrow> input list \<Rightarrow> game \<Rightarrow> error + game" where
  "run c [] g = Inr g"
| "run c (i # is) g = (case update c i g of Inl e \<Rightarrow> Inl e | Inr g' \<Rightarrow> run c is g')"

text \<open>
  The constructor \<^verbatim>\<open>__init__\<close> up to the call of \<^verbatim>\<open>pyxel.run\<close>. The paddle and the ball come
  from the absent constructors and the stage table from the stage file. Attributes
  that the constructor only declares (\<^verbatim>\<open>stats\<close>, \<^verbatim>\<open>angle\<close>, \<^verbatim>\<open>angle_direction\<close>,
  \<^verbatim>\<open>angle_cycle_speed\<close>, \<^verbatim>\<open>current_stage\<close>) are assigned by \<^verbatim>\<open>_reset_ball\<close> and
  \<^verbatim>\<open>_start_new_game\<close> before anything reads them; the record gives them the values
  those assignments write.
\<close>

definition init :: "Paddle \<Rightarrow> Ball \<Rightarrow> stage list \<Rightarrow> error + game" where
  "init p b stgs =
     start_new_game
       (reset_ball \<lparr>gravity = 0.007, stats = new_GameStats, paddle = p, angle = 0,
                    angle_direction = 1, angle_cycle_speed = 2, ball = b, stages = stgs,
                    current_stage = 1, bricks = [], current_game_state = READY\<rparr>)"

text \<open>The program \<^verbatim>\<open>BreakoutGame()\<close>: the constructor, then the frames.\<close>

definition play :: "collab \<Rightarrow> Paddle \<Rightarrow> Ball \<Rightarrow> stage list \<Rightarrow> input list \<Rightarrow> error + game" where
  "play c p b stgs is = (case init p b stgs of Inl e \<Rightarrow> Inl e | Inr g \<Rightarrow> run c is g)"

section \<open>Reachable states and their invariant\<close>

text \<open>
  The states of a game in progress: what \<^verbatim>\<open>_start_new_game\<close> returns, and what a frame
  makes of such a state, for any input of that frame.
\<close>

inductive reachable :: "collab \<Rightarrow> game \<Rightarrow> bool" for c :: collab where
  new_game: "start_new_game g0 = Inr g \<Longrightarrow> reachable c g"
| frame: "reachable c g \<Longrightarrow> update c i g = Inr g' \<Longrightarrow> reachable c g'"

definition stage_ok :: "game \<Rightarrow> bool" where
  "stage_ok g \<longleftrightarrow> 1 \<le> current_stage g \<and> current_stage g \<le> int (length (stages g))"

definition stats_ok :: "game \<Rightarrow> bool" where
  "stats_ok g \<longleftrightarrow>
     score (stats g) = 0 \<and>
     lives (stats g) = (if current_game_state g = GAME_OVER then - 1 else 0)"

definition indicator_ok :: "game \<Rightarrow> bool" where
  "indicator_ok g \<longleftrightarrow>
     angle_cycle_speed g = 2 \<and> even (angle g) \<and> 0 \<le> angle g \<and> angle g \<le> 180 \<and>
     (angle g = 0 \<longrightarrow> angle_direction g = 1) \<and>
     (angle g = 180 \<longrightarrow> angle_direction g = - 1) \<and>
     (angle_direction g = 1 \<or> angle_direction g = - 1)"

definition game_ok :: "game \<Rightarrow> bool" where
  "game_ok g \<longleftrightarrow> stage_ok g \<and> stats_ok g \<and> indicator_ok g"

text \<open>Calling \<^verbatim>\<open>_next_stage\<close> \<open>n\<close> times in a row.\<close>

fun repeat_next_stage :: "nat \<Rightarrow> game \<Rightarrow> error + game" where
  "repeat_next_stage 0 g = Inr g"
| "repeat_next_stage (Suc n) g =
     (case next_stage g of Inl e \<Rightarrow> Inl e | Inr g' \<Rightarrow> repeat_next_stage n g')"

text \<open>
  The words of the claim about the bricks above a hit: \<open>pass_all c b ks\<close> tests the
  bricks of \<open>ks\<close> in order, each with the ball the test before left, and is the ball
  after the last test when none of them collides, and \<open>None\<close> when one does.
\<close>

fun pass_all :: "collab \<Rightarrow> Ball \<Rightarrow> Brick list \<Rightarrow> Ball option" where
  "pass_all c b [] = Some b"
| "pass_all c b (k # ks) =
     (case detect_collision c b (BrickObj k) False of
        (collision, b') \<Rightarrow> if collision then None else pass_all c b' ks)"

section \<open>A concrete playfield\<close>

text \<open>
  The theorems below hold for every collaborator. To run the game on concrete inputs,
  the absent methods are given one implementation that follows the specification.

  Modelled from the spec: \<^verbatim>\<open>Ball.update\<close> of the absent module \<^verbatim>\<open>ball.py\<close>. It adds the
  gravity to the vertical velocity, advances the position by the velocity, appends the
  position to the trail and evicts the oldest entry beyond the capacity, and sets
  \<^verbatim>\<open>out_of_bounds\<close> when the vertical position exceeds the lower edge plus the radius.
  The gravity, the height of the playfield and the capacity are arguments.
\<close>

definition spec_Ball_update :: "real \<Rightarrow> real \<Rightarrow> nat \<Rightarrow> Ball \<Rightarrow> Ball" where
  "spec_Ball_update grav height cap b =
     (let b1 = b\<lparr>speed_y := speed_y b + grav\<rparr>;
          b2 = b1\<lparr>Ball.x := Ball.x b1 + speed_x b1, Ball.y := Ball.y b1 + speed_y b1\<rparr>;
          t = trails b2 @ [(Ball.x b2, Ball.y b2)];
          b3 = b2\<lparr>trails := (if cap < length t then tl t else t)\<rparr>
      in if height + Ball.r b3 < Ball.y b3 then b3\<lparr>out_of_bounds := True\<rparr> else b3)"

text \<open>
  Modelled from the spec: \<^verbatim>\<open>Ball.detect_collision\<close> of the absent module \<^verbatim>\<open>ball.py\<close>. The
  bounding box of the ball, with its top-left corner at the position and side \<open>2 r\<close>, is
  intersected with the rectangle of the target; on an intersection the vertical velocity
  is inverted. The specification leaves the size of a brick open: it is an argument.
\<close>

definition overlaps :: "Ball \<Rightarrow> real \<Rightarrow> real \<Rightarrow> real \<Rightarrow> real \<Rightarrow> bool" where
  "overlaps b rx ry rw rh \<longleftrightarrow>
     Ball.x b < rx + rw \<and> rx < Ball.x b + 2 * Ball.r b \<and>
     Ball.y b < ry + rh \<and> ry < Ball.y b + 2 * Ball.r b"

definition spec_detect_collision ::
    "real \<Rightarrow> real \<Rightarrow> Ball \<Rightarrow> target \<Rightarrow> bool \<Rightarrow> bool \<times> Ball" where
  "spec_detect_collision bw bh b t is_paddle =
     (let hit = (case t of
                   PaddleObj p \<Rightarrow>
                     overlaps b (Paddle.x p) (Paddle.y p) (Paddle.w p) (Paddle.h p)
                 | BrickObj k \<Rightarrow>
                     overlaps b (real_of_int (Brick.x k)) (real_of_int (Brick.y k)) bw bh)
      in if hit then (True, b\<lparr>speed_y := - speed_y b\<rparr>) else (False, b))"

text \<open>
  Modelled from the spec: \<^verbatim>\<open>Paddle.update\<close> of the absent module \<^verbatim>\<open>paddle.py\<close>. The centre
  of the paddle follows the pointer, and \<^verbatim>\<open>x\<close> is clamped to \<open>[0, width - w]\<close>.
\<close>

definition spec_Paddle_update :: "real \<Rightarrow> input \<Rightarrow> Paddle \<Rightarrow> Paddle" where
  "spec_Paddle_update width i p =
     p\<lparr>Paddle.x := max 0 (min (width - Paddle.w p) (real_of_int (mouse_x i) - Paddle.w p / 2))\<rparr>"

text \<open>
  The playfield of \<^verbatim>\<open>pyxel.init(width=450, height=200)\<close> with the gravity \<^verbatim>\<open>0.007\<close> of the
  constructor, a trail of two positions and bricks of 30 by 10.
\<close>

definition sample_env :: collab where
  "sample_env = \<lparr>Ball_update = spec_Ball_update 0.007 200 2,
                  detect_collision = spec_detect_collision 30 10,
                  Paddle_update = spec_Paddle_update 450\<rparr>"

definition sample_paddle :: Paddle where
  "sample_paddle = \<lparr>Paddle.x = 205, y = 190, w = 40, h = 5\<rparr>"

definition sample_ball :: Ball where
  "sample_ball = \<lparr>Ball.x = 223, y = 186, r = 2, speed_x = 0, speed_y = 0, trails = [],
                   out_of_bounds = False\<rparr>"

text \<open>Inputs of one frame: nothing pressed, the launch button, the restart key.\<close>

definition idle :: "int \<Rightarrow> input" where
  "idle mx = \<lparr>MOUSE_BUTTON_LEFT = False, KEY_SPACE = False, KEY_RETURN = False, mouse_x = mx\<rparr>"

definition click :: "int \<Rightarrow> input" where
  "click mx = \<lparr>MOUSE_BUTTON_LEFT = True, KEY_SPACE = False, KEY_RETURN = False, mouse_x = mx\<rparr>"

definition enter :: "int \<Rightarrow> input" where
  "enter mx = \<lparr>MOUSE_BUTTON_LEFT = False, KEY_SPACE = False, KEY_RETURN = True, mouse_x = mx\<rparr>"

text \<open>
  Two stage files with a single stage of one brick: a brick in the top-left corner,
  out of the way of a ball launched to the right, and a brick at the lower right, at the
  height of the paddle.
\<close>

definition far_stage :: "stage list" where
  "far_stage = [ [\<lparr>brick_dict.x = 10, y = 20, brick_type = 1\<rparr>] ]"

definition low_stage :: "stage list" where
  "low_stage = [ [\<lparr>brick_dict.x = 395, y = 195, brick_type = 1\<rparr>] ]"

text \<open>
  Two states of the concrete playfield. \<open>fallen_game\<close> is the game on \<open>far_stage\<close> at
  the end of the frame in which the ball, launched to the right at angle 0 with the
  paddle moved to the left edge, has fallen below the lower edge. \<open>last_brick_game\<close> is
  the game on \<open>low_stage\<close> one frame earlier, the ball just short of the brick.
\<close>

definition fallen_game :: game where
  "fallen_game =
     \<lparr>gravity = 0.007, stats = \<lparr>score = 0, lives = 0\<rparr>,
      paddle = \<lparr>Paddle.x = 0, y = 190, w = 40, h = 5\<rparr>,
      angle = 0, angle_direction = 1, angle_cycle_speed = 2,
      ball = \<lparr>Ball.x = 393, y = 202.422, r = 2, speed_x = 2.5, speed_y = 0.476,
              trails = [(390.5, 201.946), (393, 202.422)], out_of_bounds = True\<rparr>,
      stages = far_stage, current_stage = 1,
      bricks = [\<lparr>Brick.x = 10, y = 20, brick_type = 1\<rparr>],
      current_game_state = DROPPED\<rparr>"

definition last_brick_game :: game where
  "last_brick_game =
     \<lparr>gravity = 0.007, stats = \<lparr>score = 0, lives = 0\<rparr>,
      paddle = \<lparr>Paddle.x = 0, y = 190, w = 40, h = 5\<rparr>,
      angle = 0, angle_direction = 1, angle_cycle_speed = 2,
      ball = \<lparr>Ball.x = 390.5, y = 201.946, r = 2, speed_x = 2.5, speed_y = 0.469,
              trails = [(388, 201.477), (390.5, 201.946)], out_of_bounds = False\<rparr>,
      stages = low_stage, current_stage = 1,
      bricks = [\<lparr>Brick.x = 395, y = 195, brick_type = 1\<rparr>],
      current_game_state = RUNNING\<rparr>"

text \<open>
  \<open>lost_game\<close> is \<open>fallen_game\<close> one frame later. \<open>dropped_win_game\<close> is
  \<open>last_brick_game\<close> one frame later: the ball has touched the brick while crossing the
  lower edge. \<open>three_brick_game\<close> is a running game whose ball overlaps the first two
  of its three bricks.
\<close>

definition lost_game :: game where
  "lost_game = fallen_game\<lparr>stats := \<lparr>score = 0, lives = - 1\<rparr>, current_game_state := GAME_OVER\<rparr>"

definition three_brick_game :: game where
  "three_brick_game =
     \<lparr>gravity = 0.007, stats = \<lparr>score = 0, lives = 0\<rparr>,
      paddle = \<lparr>Paddle.x = 205, y = 190, w = 40, h = 5\<rparr>,
      angle = 0, angle_direction = 1, angle_cycle_speed = 2,
      ball = \<lparr>Ball.x = 100, y = 50, r = 2, speed_x = 1, speed_y = - 2,
              trails = [], out_of_bounds = False\<rparr>,
      stages = [ [\<lparr>brick_dict.x = 90, y = 45, brick_type = 1\<rparr>,
                 \<lparr>brick_dict.x = 80, y = 48, brick_type = 1\<rparr>,
                 \<lparr>brick_dict.x = 200, y = 48, brick_type = 2\<rparr>] ],
      current_stage = 1,
      bricks = [\<lparr>Brick.x = 90, y = 45, brick_type = 1\<rparr>,
                \<lparr>Brick.x = 80, y = 48, brick_type = 1\<rparr>,
                \<lparr>Brick.x = 200, y = 48, brick_type = 2\<rparr>],
      current_game_state = RUNNING\<rparr>"

definition dropped_win_game :: game where
  "dropped_win_game =
     last_brick_game
       \<lparr>ball := \<lparr>Ball.x = 393, y = 202.422, r = 2, speed_x = 2.5, speed_y = - 0.476,
                 trails = [(390.5, 201.946), (393, 202.422)], out_of_bounds = True\<rparr>,
        bricks := [], current_game_state := DROPPED\<rparr>"

section \<open>Lemmas about the methods\<close>

subsection \<open>getitem\<close>

lemma getitem_nonneg: "0 \<le> i \<Longrightarrow> i < int (length xs) \<Longrightarrow> getitem xs i = Inr (xs ! nat i)"
  by (simp add: getitem_def)

lemma getitem_mem: "getitem xs i = Inr v \<Longrightarrow> v \<in> set xs"
  by (auto simp: getitem_def split: if_splits)

lemma getitem_zero: "getitem xs 0 = (if xs = [] then Inl IndexError else Inr (xs ! 0))"
  by (simp add: getitem_def)

subsection \<open>methods\<close>

lemma load_stage_nonneg:
  "0 \<le> k \<Longrightarrow> k < int (length (stages g)) \<Longrightarrow>
   load_stage g k = Inr (g\<lparr>bricks := map new_Brick (stages g ! nat k)\<rparr>)"
  by (simp add: load_stage_def getitem_nonneg)

lemma load_stage_Inr:
  "load_stage g k = Inr g' \<Longrightarrow> \<exists>s \<in> set (stages g). g' = g\<lparr>bricks := map new_Brick s\<rparr>"
  by (auto simp: load_stage_def split: sum.splits dest: getitem_mem)

lemma start_new_game_eq:
  "start_new_game g =
     (if stages g = [] then Inl IndexError
      else Inr ((reset_ball (g\<lparr>stats := new_GameStats, current_stage := 1,
                               bricks := map new_Brick (stages g ! 0)\<rparr>))
                 \<lparr>current_game_state := READY\<rparr>))"
  by (simp add: start_new_game_def load_stage_def getitem_zero)

lemma next_stage_last:
  "\<not> current_stage g < int (length (stages g)) \<Longrightarrow>
   next_stage g = Inr (g\<lparr>current_game_state := WIN\<rparr>)"
  by (simp add: next_stage_def)

lemma next_stage_advance:
  "0 \<le> current_stage g \<Longrightarrow> current_stage g < int (length (stages g)) \<Longrightarrow>
   next_stage g =
     Inr ((reset_ball (g\<lparr>current_stage := current_stage g + 1,
                          bricks := map new_Brick (stages g ! nat (current_stage g))\<rparr>))
           \<lparr>current_game_state := READY\<rparr>)"
  by (simp add: next_stage_def load_stage_nonneg)

lemma reset_ball_fields [simp]:
  "stats (reset_ball g) = stats g"
  "paddle (reset_ball g) = paddle g"
  "stages (reset_ball g) = stages g"
  "current_stage (reset_ball g) = current_stage g"
  "bricks (reset_ball g) = bricks g"
  "current_game_state (reset_ball g) = current_game_state g"
  "gravity (reset_ball g) = gravity g"
  "angle (reset_ball g) = 0"
  "angle_direction (reset_ball g) = 1"
  "angle_cycle_speed (reset_ball g) = 2"
  by (simp_all add: reset_ball_def Let_def)

lemma reset_ball_ball:
  "ball (reset_ball g) =
     (ball g)\<lparr>trails := [], Ball.y := Paddle.y (paddle g) - Ball.r (ball g) * 2,
              speed_x := 0, speed_y := 0, out_of_bounds := False\<rparr>"
  by (simp add: reset_ball_def clear_trails_def Let_def)

lemma scan_bricks_result:
  "n \<le> length bs \<Longrightarrow>
   \<exists>b' bs'. scan_bricks c n b bs = Inr (b', bs') \<and>
            (bs' = bs \<or> (\<exists>i<n. bs' = take i bs @ drop (Suc i) bs))"
proof (induction n arbitrary: b)
  case 0
  then show ?case by simp
next
  case (Suc n)
  obtain hit b1 where d: "detect_collision c b (BrickObj (bs ! n)) False = (hit, b1)"
    by (cases "detect_collision c b (BrickObj (bs ! n)) False")
  from Suc.prems have n: "n < length bs" "n \<le> length bs" by simp_all
  show ?case
  proof (cases hit)
    case True
    with d n show ?thesis by auto
  next
    case False
    from Suc.IH [OF n(2), of b1] obtain b' bs' where
      "scan_bricks c n b1 bs = Inr (b', bs')"
      "bs' = bs \<or> (\<exists>i<n. bs' = take i bs @ drop (Suc i) bs)" by blast
    with d n False show ?thesis by (auto intro: less_SucI)
  qed
qed

lemma check_collision_result:
  "\<exists>b' bs'. check_collision c g = Inr (g\<lparr>ball := b', bricks := bs'\<rparr>) \<and>
            (bs' = bricks g \<or> (\<exists>i<length (bricks g). bs' = take i (bricks g) @ drop (Suc i) (bricks g)))"
proof -
  obtain hit b1 where d: "detect_collision c (ball g) (PaddleObj (paddle g)) True = (hit, b1)"
    by (cases "detect_collision c (ball g) (PaddleObj (paddle g)) True")
  from scan_bricks_result [of "length (bricks g)" "bricks g" c b1]
  obtain b' bs' where "scan_bricks c (length (bricks g)) b1 (bricks g) = Inr (b', bs')"
    "bs' = bricks g \<or> (\<exists>i<length (bricks g). bs' = take i (bricks g) @ drop (Suc i) (bricks g))"
    by blast
  with d show ?thesis by (auto simp: check_collision_def)
qed


subsection \<open>frames\<close>

lemma update_READY_launch:
  "current_game_state g = READY \<Longrightarrow> MOUSE_BUTTON_LEFT i \<or> KEY_SPACE i \<Longrightarrow>
   update c i g = update_running_state c ((launch_ball g)\<lparr>paddle := Paddle_update c i (paddle g)\<rparr>)"
  by (simp add: update_def check_input_def launch_ball_def Let_def)

lemma update_READY_idle:
  "current_game_state g = READY \<Longrightarrow> \<not> MOUSE_BUTTON_LEFT i \<Longrightarrow> \<not> KEY_SPACE i \<Longrightarrow>
   update c i g = Inr (update_ready_state (g\<lparr>paddle := Paddle_update c i (paddle g)\<rparr>))"
  by (simp add: update_def check_input_def Let_def)

lemma update_RUNNING:
  "current_game_state g = RUNNING \<Longrightarrow>
   update c i g = update_running_state c (g\<lparr>paddle := Paddle_update c i (paddle g)\<rparr>)"
  by (simp add: update_def check_input_def Let_def)

lemma update_DROPPED:
  "current_game_state g = DROPPED \<Longrightarrow>
   update c i g = Inr (update_dropped_state (g\<lparr>paddle := Paddle_update c i (paddle g)\<rparr>))"
  by (simp add: update_def check_input_def Let_def)

lemma update_terminal_idle:
  "current_game_state g = GAME_OVER \<or> current_game_state g = WIN \<Longrightarrow> \<not> KEY_RETURN i \<Longrightarrow>
   update c i g = Inr (g\<lparr>paddle := Paddle_update c i (paddle g)\<rparr>)"
  by (auto simp: update_def check_input_def Let_def)

lemma update_terminal_restart:
  "current_game_state g = GAME_OVER \<or> current_game_state g = WIN \<Longrightarrow> KEY_RETURN i \<Longrightarrow>
   update c i g =
     (case start_new_game g of
        Inl e \<Rightarrow> Inl e
      | Inr g1 \<Rightarrow> Inr (update_ready_state (g1\<lparr>paddle := Paddle_update c i (paddle g1)\<rparr>)))"
  by (auto simp: update_def check_input_def Let_def start_new_game_eq)

lemma update_running_state_result:
  assumes "check_collision c (g\<lparr>ball := Ball_update c (ball g)\<rparr>) = Inr g1"
  shows "update_running_state c g =
     (if bricks g1 = [] then
        (if current_stage g1 = int (length (stages g1))
         then Inr (g1\<lparr>current_game_state :=
                        if out_of_bounds (ball g1) then DROPPED else WIN\<rparr>)
         else (case next_stage g1 of
                 Inl e \<Rightarrow> Inl e
               | Inr g2 \<Rightarrow> Inr (if out_of_bounds (ball g2)
                                then g2\<lparr>current_game_state := DROPPED\<rparr> else g2)))
      else Inr (if out_of_bounds (ball g1) then g1\<lparr>current_game_state := DROPPED\<rparr> else g1))"
  using assms by (simp add: update_running_state_def split: sum.splits)

subsection \<open>invariant\<close>

lemma game_ok_start: "start_new_game g0 = Inr g \<Longrightarrow> game_ok g"
  by (auto simp: start_new_game_eq game_ok_def stage_ok_def stats_ok_def indicator_ok_def
      new_GameStats_def Suc_le_eq split: if_splits)

lemma game_ok_ready: "game_ok g \<Longrightarrow> current_game_state g = READY \<Longrightarrow>
   game_ok (update_ready_state (g\<lparr>paddle := p\<rparr>))"
  unfolding game_ok_def stage_ok_def stats_ok_def indicator_ok_def update_ready_state_def Let_def
  by (elim conjE disjE) (auto split: if_splits)

lemma game_ok_dropped: "game_ok g \<Longrightarrow> current_game_state g = DROPPED \<Longrightarrow>
   game_ok (update_dropped_state (g\<lparr>paddle := p\<rparr>))"
  by (auto simp: game_ok_def stage_ok_def stats_ok_def indicator_ok_def update_dropped_state_def Let_def)

lemma game_ok_running:
  assumes ok: "game_ok g" and st: "current_game_state g = RUNNING"
  shows "\<exists>g'. update_running_state c g = Inr g' \<and> game_ok g'"
proof -
  let ?g0 = "g\<lparr>ball := Ball_update c (ball g)\<rparr>"
  obtain b' bs' where cc: "check_collision c ?g0 = Inr (?g0\<lparr>ball := b', bricks := bs'\<rparr>)"
    using check_collision_result [of c ?g0] by blast
  let ?g1 = "?g0\<lparr>ball := b', bricks := bs'\<rparr>"
  have ok1: "game_ok ?g1" and st1: "current_game_state ?g1 = RUNNING"
    using ok st by (simp_all add: game_ok_def stage_ok_def stats_ok_def indicator_ok_def)
  note res = update_running_state_result [OF cc]
  show ?thesis
  proof (cases "bricks ?g1 = [] \<and> current_stage ?g1 \<noteq> int (length (stages ?g1))")
    case True
    then have lt: "0 \<le> current_stage ?g1" "current_stage ?g1 < int (length (stages ?g1))"
      using ok1 by (auto simp: game_ok_def stage_ok_def)
    show ?thesis
      using True ok1 st1 unfolding res next_stage_advance [OF lt]
      by (auto simp: game_ok_def stage_ok_def stats_ok_def indicator_ok_def reset_ball_ball)
  next
    case False
    then show ?thesis
      using ok1 st1 unfolding res
      by (auto simp: game_ok_def stage_ok_def stats_ok_def indicator_ok_def)
  qed
qed

lemma game_ok_launch: "game_ok g \<Longrightarrow> current_game_state g = READY \<Longrightarrow>
  game_ok ((launch_ball g)\<lparr>paddle := p\<rparr>) \<and> current_game_state ((launch_ball g)\<lparr>paddle := p\<rparr>) = RUNNING"
  by (auto simp: game_ok_def stage_ok_def stats_ok_def indicator_ok_def launch_ball_def Let_def)

lemma game_ok_update:
  assumes ok: "game_ok g"
  shows "\<exists>g'. update c i g = Inr g' \<and> game_ok g'"
proof (cases "current_game_state g")
  case READY
  show ?thesis
  proof (cases "MOUSE_BUTTON_LEFT i \<or> KEY_SPACE i")
    case True
    from game_ok_launch [OF ok READY] game_ok_running
    show ?thesis unfolding update_READY_launch [OF READY True] by blast
  next
    case False
    then show ?thesis using update_READY_idle [OF READY] game_ok_ready [OF ok READY] by simp
  qed
next
  case RUNNING
  have "game_ok (g\<lparr>paddle := Paddle_update c i (paddle g)\<rparr>)"
    using ok by (simp add: game_ok_def stage_ok_def stats_ok_def indicator_ok_def)
  then show ?thesis using game_ok_running RUNNING unfolding update_RUNNING [OF RUNNING] by simp
next
  case DROPPED
  then show ?thesis using update_DROPPED [OF DROPPED] game_ok_dropped [OF ok DROPPED] by simp
next
  case GAME_OVER
  then have t: "current_game_state g = GAME_OVER \<or> current_game_state g = WIN" by simp
  have ne: "stages g \<noteq> []" using ok by (auto simp: game_ok_def stage_ok_def)
  show ?thesis
  proof (cases "KEY_RETURN i")
    case True
    obtain g1 where g1: "start_new_game g = Inr g1" using ne by (simp add: start_new_game_eq)
    have "current_game_state g1 = READY" using g1 ne by (auto simp: start_new_game_eq)
    with game_ok_ready [OF game_ok_start [OF g1] ] g1
    show ?thesis unfolding update_terminal_restart [OF t True] by simp
  next
    case False
    have "game_ok (g\<lparr>paddle := Paddle_update c i (paddle g)\<rparr>)"
      using ok by (simp add: game_ok_def stage_ok_def stats_ok_def indicator_ok_def)
    then show ?thesis unfolding update_terminal_idle [OF t False] by simp
  qed
next
  case WIN
  then have t: "current_game_state g = GAME_OVER \<or> current_game_state g = WIN" by simp
  have ne: "stages g \<noteq> []" using ok by (auto simp: game_ok_def stage_ok_def)
  show ?thesis
  proof (cases "KEY_RETURN i")
    case True
    obtain g1 where g1: "start_new_game g = Inr g1" using ne by (simp add: start_new_game_eq)
    have "current_game_state g1 = READY" using g1 ne by (auto simp: start_new_game_eq)
    with game_ok_ready [OF game_ok_start [OF g1] ] g1
    show ?thesis unfolding update_terminal_restart [OF t True] by simp
  next
    case False
    have "game_ok (g\<lparr>paddle := Paddle_update c i (paddle g)\<rparr>)"
      using ok by (simp add: game_ok_def stage_ok_def stats_ok_def indicator_ok_def)
    then show ?thesis unfolding update_terminal_idle [OF t False] by simp
  qed
qed

lemma reachable_game_ok: "reachable c g \<Longrightarrow> game_ok g"
proof (induction rule: reachable.induct)
  case (new_game g0 g)
  then show ?case by (rule game_ok_start)
next
  case (frame g i g')
  with game_ok_update [of g c i] show ?case by auto
qed

subsection \<open>runs on the concrete playfield\<close>

lemmas sample_defs = spec_Ball_update_def overlaps_def spec_detect_collision_def
  spec_Paddle_update_def sample_env_def sample_paddle_def sample_ball_def idle_def click_def
  enter_def far_stage_def low_stage_def

lemmas method_defs = init_def start_new_game_def load_stage_def getitem_def reset_ball_def
  clear_trails_def new_Brick_def new_GameStats_def update_def check_input_def launch_ball_def
  radians_def update_running_state_def check_collision_def update_ready_state_def
  update_dropped_state_def next_stage_def play_def Let_def

lemma run_reachable: "reachable c g \<Longrightarrow> run c is g = Inr g' \<Longrightarrow> reachable c g'"
proof (induction "is" arbitrary: g)
  case Nil
  then show ?case by simp
next
  case (Cons i "is")
  from Cons.prems(2) obtain g1 where u: "update c i g = Inr g1" and r: "run c is g1 = Inr g'"
    by (auto split: sum.splits)
  from Cons.prems(1) u have "reachable c g1" by (rule reachable.frame)
  then show ?case using r by (rule Cons.IH)
qed

lemma play_reachable: "play c p b stgs is = Inr g \<Longrightarrow> reachable c g"
  by (auto simp: play_def init_def split: sum.splits
      intro: run_reachable reachable.new_game)

lemma play_fallen_game:
  "play sample_env sample_paddle sample_ball far_stage (click 0 # replicate 67 (idle 0))
     = Inr fallen_game"
  by (simp add: sample_defs method_defs fallen_game_def eval_nat_numeral)

lemma play_last_brick_game:
  "play sample_env sample_paddle sample_ball low_stage (click 0 # replicate 66 (idle 0))
     = Inr last_brick_game"
  by (simp add: sample_defs method_defs last_brick_game_def eval_nat_numeral)


lemma repeat_next_stage_WIN:
  "current_stage g = int (length (stages g)) \<Longrightarrow>
   repeat_next_stage n (g\<lparr>current_game_state := WIN\<rparr>) = Inr (g\<lparr>current_game_state := WIN\<rparr>)"
  by (induction n) (simp_all add: next_stage_last)

subsection \<open>runs, indicator and bricks\<close>

lemma run_append:
  "run c (is @ js) g = (case run c is g of Inl e \<Rightarrow> Inl e | Inr g' \<Rightarrow> run c js g')"
  by (induction "is" arbitrary: g) (auto split: sum.splits)

lemma play_snoc:
  "play c p b stgs is = Inr g \<Longrightarrow> play c p b stgs (is @ [i]) = update c i g"
  by (auto simp: play_def run_append split: sum.splits)

lemma fallen_game_frame: "update sample_env (idle 0) fallen_game = Inr lost_game"
  by (simp add: sample_defs method_defs fallen_game_def lost_game_def)

lemma indicator_ok_reset: "indicator_ok (reset_ball g)"
  by (simp add: indicator_ok_def)

lemma indicator_ok_ready: "indicator_ok g \<Longrightarrow> indicator_ok (update_ready_state g)"
  unfolding indicator_ok_def update_ready_state_def Let_def
  by (elim conjE disjE) (auto split: if_splits)

lemma indicator_ok_ready_frames: "indicator_ok ((update_ready_state ^^ n) (reset_ball g))"
  by (induction n) (simp_all add: indicator_ok_reset indicator_ok_ready)

lemma ready_frames_rising:
  "n \<le> 90 \<Longrightarrow>
   angle ((update_ready_state ^^ n) (reset_ball g)) = 2 * int n \<and>
   angle_direction ((update_ready_state ^^ n) (reset_ball g)) = (if n = 90 then - 1 else 1) \<and>
   angle_cycle_speed ((update_ready_state ^^ n) (reset_ball g)) = 2"
proof (induction n)
  case 0
  then show ?case by simp
next
  case (Suc n)
  then show ?case by (auto simp: update_ready_state_def Let_def)
qed

lemma update_ready_state_indicator:
  "angle (update_ready_state g) = angle g + angle_direction g * angle_cycle_speed g"
  "angle_direction (update_ready_state g) =
     (if angle (update_ready_state g) = 180 \<or> angle (update_ready_state g) = 0
      then - angle_direction g else angle_direction g)"
  "angle_cycle_speed (update_ready_state g) = angle_cycle_speed g"
  by (simp_all add: update_ready_state_def Let_def)

lemma scan_bricks_append:
  "n \<le> length bs \<Longrightarrow>
   scan_bricks c n b (bs @ ks) =
     (case scan_bricks c n b bs of Inl e \<Rightarrow> Inl e | Inr (b', bs') \<Rightarrow> Inr (b', bs' @ ks))"
proof (induction n arbitrary: b)
  case 0
  then show ?case by simp
next
  case (Suc n)
  then have n: "n < length bs" "n \<le> length bs" by simp_all
  obtain hit b1 where d: "detect_collision c b (BrickObj (bs ! n)) False = (hit, b1)"
    by (cases "detect_collision c b (BrickObj (bs ! n)) False")
  show ?case using n d Suc.IH [OF n(2), of b1] by (simp add: nth_append)
qed

lemma scan_bricks_top:
  "scan_bricks c (length (bs @ [k])) b (bs @ [k]) =
     (case detect_collision c b (BrickObj k) False of
        (collision, b1) \<Rightarrow>
          if collision then Inr (b1, bs)
          else (case scan_bricks c (length bs) b1 bs of
                  Inl e \<Rightarrow> Inl e
                | Inr (b2, bs') \<Rightarrow> Inr (b2, bs' @ [k])))"
  by (simp add: scan_bricks_append split: prod.splits)

lemma next_stage_bricks:
  "next_stage g = Inr g' \<Longrightarrow>
   bricks g' = bricks g \<or> (\<exists>s\<in>set (stages g). bricks g' = map new_Brick s)"
  by (auto simp: next_stage_def Let_def split: if_splits sum.splits dest!: load_stage_Inr)

lemma update_running_state_bricks:
  assumes "update_running_state c g = Inr g'"
  shows "length (bricks g') \<le> length (bricks g) \<or>
         (\<exists>s\<in>set (stages g). bricks g' = map new_Brick s)"
proof -
  let ?g0 = "g\<lparr>ball := Ball_update c (ball g)\<rparr>"
  obtain b' bs' where cc: "check_collision c ?g0 = Inr (?g0\<lparr>ball := b', bricks := bs'\<rparr>)"
    and bs': "bs' = bricks ?g0 \<or>
       (\<exists>i<length (bricks ?g0). bs' = take i (bricks ?g0) @ drop (Suc i) (bricks ?g0))"
    using check_collision_result [of c ?g0] by blast
  let ?g1 = "?g0\<lparr>ball := b', bricks := bs'\<rparr>"
  from bs' have len: "length bs' \<le> length (bricks g)" by auto
  show ?thesis
  proof (cases "bricks ?g1 = [] \<and> current_stage ?g1 \<noteq> int (length (stages ?g1))")
    case True
    with assms obtain g2 where n: "next_stage ?g1 = Inr g2" and b: "bricks g' = bricks g2"
      unfolding update_running_state_result [OF cc] by (auto split: sum.splits if_splits)
    from next_stage_bricks [OF n] b True show ?thesis by auto
  next
    case False
    with assms have "bricks g' = bs'"
      unfolding update_running_state_result [OF cc] by (auto split: if_splits)
    with len show ?thesis by simp
  qed
qed

lemma update_bricks:
  assumes "update c i g = Inr g'"
  shows "length (bricks g') \<le> length (bricks g) \<or>
         (\<exists>s\<in>set (stages g). bricks g' = map new_Brick s)"
proof (cases "current_game_state g")
  case READY
  show ?thesis
  proof (cases "MOUSE_BUTTON_LEFT i \<or> KEY_SPACE i")
    case True
    from assms update_running_state_bricks
      [of c "(launch_ball g)\<lparr>paddle := Paddle_update c i (paddle g)\<rparr>" g']
    show ?thesis unfolding update_READY_launch [OF READY True]
      by (simp add: launch_ball_def Let_def)
  next
    case False
    with assms show ?thesis using update_READY_idle [OF READY, of i c]
      by (auto simp: update_ready_state_def Let_def)
  qed
next
  case RUNNING
  from assms update_running_state_bricks [of c "g\<lparr>paddle := Paddle_update c i (paddle g)\<rparr>" g']
  show ?thesis unfolding update_RUNNING [OF RUNNING] by simp
next
  case DROPPED
  with assms show ?thesis using update_DROPPED [OF DROPPED, of c i]
    by (auto simp: update_dropped_state_def Let_def)
next
  case GAME_OVER
  then have t: "current_game_state g = GAME_OVER \<or> current_game_state g = WIN" by simp
  show ?thesis
  proof (cases "KEY_RETURN i")
    case True
    with assms show ?thesis unfolding update_terminal_restart [OF t True]
      by (auto simp: start_new_game_eq update_ready_state_def Let_def split: if_splits)
  next
    case False
    with assms show ?thesis unfolding update_terminal_idle [OF t False] by auto
  qed
next
  case WIN
  then have t: "current_game_state g = GAME_OVER \<or> current_game_state g = WIN" by simp
  show ?thesis
  proof (cases "KEY_RETURN i")
    case True
    with assms show ?thesis unfolding update_terminal_restart [OF t True]
      by (auto simp: start_new_game_eq update_ready_state_def Let_def split: if_splits)
  next
    case False
    with assms show ?thesis unfolding update_terminal_idle [OF t False] by auto
  qed
qed

lemma scan_bricks_pass:
  "pass_all c b (rev upper) = Some b2 \<Longrightarrow>
   scan_bricks c (length (pre @ upper)) b (pre @ upper) =
     (case scan_bricks c (length pre) b2 pre of
        Inl e \<Rightarrow> Inl e
      | Inr (b3, bs') \<Rightarrow> Inr (b3, bs' @ upper))"
proof (induction upper arbitrary: b rule: rev_induct)
  case Nil
  then show ?case by (simp split: sum.splits)
next
  case (snoc u us)
  obtain hit b' where d: "detect_collision c b (BrickObj u) False = (hit, b')"
    by (cases "detect_collision c b (BrickObj u) False")
  with snoc.prems have miss: "\<not> hit" and rest: "pass_all c b' (rev us) = Some b2"
    by (auto split: if_splits)
  have "scan_bricks c (length ((pre @ us) @ [u])) b ((pre @ us) @ [u]) =
          (case scan_bricks c (length (pre @ us)) b' (pre @ us) of
             Inl e \<Rightarrow> Inl e
           | Inr (b3, bs') \<Rightarrow> Inr (b3, bs' @ [u]))"
    using d miss by (simp only: scan_bricks_top) simp
  also have "\<dots> = (case scan_bricks c (length pre) b2 pre of
                      Inl e \<Rightarrow> Inl e
                    | Inr (b3, bs') \<Rightarrow> Inr (b3, bs' @ us @ [u]))"
    by (simp only: snoc.IH [OF rest]) (simp split: sum.splits)
  finally show ?case by simp
qed

lemma check_collision_first_hit:
  assumes "bricks g = lower @ k # upper"
    and "pass_all c (snd (detect_collision c (ball g) (PaddleObj (paddle g)) True)) (rev upper)
           = Some b2"
    and "detect_collision c b2 (BrickObj k) False = (True, b3)"
  shows "check_collision c g = Inr (g\<lparr>ball := b3, bricks := lower @ upper\<rparr>)"
proof -
  obtain pc b1 where d: "detect_collision c (ball g) (PaddleObj (paddle g)) True = (pc, b1)"
    by (cases "detect_collision c (ball g) (PaddleObj (paddle g)) True")
  from assms(2) d have p: "pass_all c b1 (rev upper) = Some b2" by simp
  have top: "scan_bricks c (length (lower @ [k])) b2 (lower @ [k]) = Inr (b3, lower)"
    using assms(3) by (simp only: scan_bricks_top) simp
  have "scan_bricks c (length ((lower @ [k]) @ upper)) b1 ((lower @ [k]) @ upper)
          = Inr (b3, lower @ upper)"
    by (simp only: scan_bricks_pass [OF p] top) simp
  then have "scan_bricks c (length (bricks g)) b1 (bricks g) = Inr (b3, lower @ upper)"
    by (simp add: assms(1))
  then show ?thesis by (simp add: check_collision_def d)
qed

lemma check_collision_no_hit:
  assumes "pass_all c (snd (detect_collision c (ball g) (PaddleObj (paddle g)) True))
             (rev (bricks g)) = Some b2"
  shows "check_collision c g = Inr (g\<lparr>ball := b2, bricks := bricks g\<rparr>)"
proof -
  obtain pc b1 where d: "detect_collision c (ball g) (PaddleObj (paddle g)) True = (pc, b1)"
    by (cases "detect_collision c (ball g) (PaddleObj (paddle g)) True")
  from assms d have p: "pass_all c b1 (rev (bricks g)) = Some b2" by simp
  have "scan_bricks c (length ([] @ bricks g)) b1 ([] @ bricks g) = Inr (b2, bricks g)"
    by (simp only: scan_bricks_pass [OF p]) simp
  then have "scan_bricks c (length (bricks g)) b1 (bricks g) = Inr (b2, bricks g)" by simp
  then show ?thesis by (simp add: check_collision_def d)
qed

lemma reachable_never_a_life: "reachable c g \<Longrightarrow> lives (stats g) \<le> 0"
  using reachable_game_ok [of c g] by (simp add: game_ok_def stats_ok_def)

lemma update_running_state_last_stage_cleared:
  assumes "check_collision c (g\<lparr>ball := Ball_update c (ball g)\<rparr>) = Inr g1"
    and "bricks g1 = []" and "current_stage g1 = int (length (stages g1))"
  shows "update_running_state c g =
           Inr (g1\<lparr>current_game_state := if out_of_bounds (ball g1) then DROPPED else WIN\<rparr>)"
  using assms(2,3) by (simp add: update_running_state_result [OF assms(1)])

section \<open>The claims\<close>

text \<open>
  Claim C1. In a frame of the RUNNING state in which, after the collision
  resolution, the brick field is empty and the stage counter equals the number of stages,
  the state after the frame is WIN, also when the ball is out of bounds in that frame.

  The code does not do this. \<^verbatim>\<open>_update_running_state\<close> sets WIN and then,
  in a second \<^verbatim>\<open>if\<close>, overwrites the state with DROPPED when the ball is out of bounds
  (see \<open>update_running_state_last_stage_cleared\<close>). The branch beside it, the advance to
  the next stage, resets the ball and so keeps its READY. On the concrete playfield: the
  single stage has one brick at the lower right; the ball is launched to the right at
  angle 0 and the paddle is moved away; in the 68th frame the ball crosses the lower edge
  and touches the brick. The brick is removed, the field is empty on the last stage, and
  the frame ends in DROPPED; the next frame takes a life and ends in GAME_OVER.
\<close>

theorem C1_last_brick_while_dropping:
  "play sample_env sample_paddle sample_ball low_stage (click 0 # replicate 66 (idle 0))
     = Inr last_brick_game \<and>
   current_game_state last_brick_game = RUNNING \<and>
   check_collision sample_env
       (last_brick_game\<lparr>ball := Ball_update sample_env (ball last_brick_game)\<rparr>)
     = Inr (dropped_win_game\<lparr>current_game_state := RUNNING\<rparr>) \<and>
   bricks dropped_win_game = [] \<and>
   current_stage dropped_win_game = int (length (stages dropped_win_game)) \<and>
   out_of_bounds (ball dropped_win_game) \<and>
   update sample_env (idle 0) last_brick_game = Inr dropped_win_game \<and>
   current_game_state dropped_win_game = DROPPED \<and>
   current_game_state dropped_win_game \<noteq> WIN \<and>
   update sample_env (idle 0) dropped_win_game
     = Inr (dropped_win_game\<lparr>stats := \<lparr>score = 0, lives = - 1\<rparr>,
                             current_game_state := GAME_OVER\<rparr>)"
proof -
  have 1: "check_collision sample_env
       (last_brick_game\<lparr>ball := Ball_update sample_env (ball last_brick_game)\<rparr>)
     = Inr (dropped_win_game\<lparr>current_game_state := RUNNING\<rparr>)"
    by (simp add: sample_defs check_collision_def last_brick_game_def dropped_win_game_def
        Let_def)
  have 2: "update sample_env (idle 0) last_brick_game = Inr dropped_win_game"
    by (simp add: sample_defs method_defs last_brick_game_def dropped_win_game_def)
  have 3: "update sample_env (idle 0) dropped_win_game
     = Inr (dropped_win_game\<lparr>stats := \<lparr>score = 0, lives = - 1\<rparr>,
                             current_game_state := GAME_OVER\<rparr>)"
    by (simp add: sample_defs method_defs last_brick_game_def dropped_win_game_def)
  have 4: "current_game_state last_brick_game = RUNNING" "bricks dropped_win_game = []"
    "current_stage dropped_win_game = int (length (stages dropped_win_game))"
    "out_of_bounds (ball dropped_win_game)" "current_game_state dropped_win_game = DROPPED"
    by (simp_all add: last_brick_game_def dropped_win_game_def low_stage_def)
  from play_last_brick_game 1 2 3 4 show ?thesis by simp
qed

text \<open>
  Claim C2. In every state reachable from a new game the score and the lives are at
  least 0.

  The code does not keep this for the lives. \<^verbatim>\<open>GameStats()\<close> starts every game with
  0 lives, and \<^verbatim>\<open>_update_dropped_state\<close> takes a life before it tests, so the first drop
  leaves \<open>-1\<close>. No reachable state has a life (\<open>reachable_never_a_life\<close>): the branch of
  \<^verbatim>\<open>_update_dropped_state\<close> for a player who still has lives is never taken, and the
  loop of \<^verbatim>\<open>_draw_ui\<close> never draws a heart. On the concrete playfield: launch at once, move
  the paddle away, and let the ball fall. After 69 frames the game is over with \<open>-1\<close>
  lives.
\<close>

theorem C2_lives_negative:
  "play sample_env sample_paddle sample_ball far_stage (click 0 # replicate 67 (idle 0) @ [idle 0])
     = Inr lost_game \<and>
   reachable sample_env lost_game \<and> lives (stats lost_game) = - 1 \<and>
   \<not> 0 \<le> lives (stats lost_game)"
proof -
  have p: "play sample_env sample_paddle sample_ball far_stage
             (click 0 # replicate 67 (idle 0) @ [idle 0]) = Inr lost_game"
    using play_snoc [OF play_fallen_game, of "idle 0"] by (simp add: fallen_game_frame)
  then have "reachable sample_env lost_game" by (rule play_reachable)
  with p show ?thesis by (simp add: lost_game_def)
qed

text \<open>
  Claim C3. One call of \<^verbatim>\<open>_check_collision\<close> returns normally, changes only the ball and
  the bricks, and removes at most one brick, at one index. Which one: when the bricks are
  \<open>lower @ k # upper\<close>, the bricks of \<open>upper\<close>, tested from the last one down after the
  paddle, all miss, and \<open>k\<close> collides, the call removes exactly \<open>k\<close> and returns the ball
  of that test; the bricks of \<open>lower\<close> stay, whatever they are and whether or not they
  would collide. When every brick misses, the list is unchanged. The loop itself obeys the
  same two equations at the top of any list. Over a frame the brick list does not grow
  unless it is replaced by the bricks of a stage of the stage table.
\<close>

theorem C3_one_brick_per_call:
  "(\<exists>b' bs'. check_collision c g = Inr (g\<lparr>ball := b', bricks := bs'\<rparr>) \<and>
       length bs' \<le> length (bricks g) \<and> length (bricks g) \<le> length bs' + 1 \<and>
       (bs' = bricks g \<or>
        (\<exists>j<length (bricks g). bs' = take j (bricks g) @ drop (Suc j) (bricks g)))) \<and>
   (bricks g = lower @ k' # upper \<and>
    pass_all c (snd (detect_collision c (ball g) (PaddleObj (paddle g)) True)) (rev upper)
      = Some b2 \<and>
    detect_collision c b2 (BrickObj k') False = (True, b3) \<longrightarrow>
      check_collision c g = Inr (g\<lparr>ball := b3, bricks := lower @ upper\<rparr>)) \<and>
   (pass_all c (snd (detect_collision c (ball g) (PaddleObj (paddle g)) True))
      (rev (bricks g)) = Some b2 \<longrightarrow>
      check_collision c g = Inr (g\<lparr>ball := b2, bricks := bricks g\<rparr>)) \<and>
   (detect_collision c b (BrickObj k) False = (True, b1) \<longrightarrow>
      scan_bricks c (length (bs @ [k])) b (bs @ [k]) = Inr (b1, bs)) \<and>
   (detect_collision c b (BrickObj k) False = (False, b1) \<longrightarrow>
      scan_bricks c (length (bs @ [k])) b (bs @ [k]) =
        (case scan_bricks c (length bs) b1 bs of
           Inl e \<Rightarrow> Inl e
         | Inr (b2, bs') \<Rightarrow> Inr (b2, bs' @ [k]))) \<and>
   (update c i g = Inr g' \<longrightarrow>
      length (bricks g') \<le> length (bricks g) \<or>
      (\<exists>s\<in>set (stages g). bricks g' = map new_Brick s))"
proof -
  obtain b' bs' where cc: "check_collision c g = Inr (g\<lparr>ball := b', bricks := bs'\<rparr>)"
    and bs': "bs' = bricks g \<or>
       (\<exists>j<length (bricks g). bs' = take j (bricks g) @ drop (Suc j) (bricks g))"
    using check_collision_result [of c g] by blast
  from bs' have "length bs' \<le> length (bricks g)" "length (bricks g) \<le> length bs' + 1"
    by auto
  with cc bs' have 1: "\<exists>b' bs'. check_collision c g = Inr (g\<lparr>ball := b', bricks := bs'\<rparr>) \<and>
       length bs' \<le> length (bricks g) \<and> length (bricks g) \<le> length bs' + 1 \<and>
       (bs' = bricks g \<or>
        (\<exists>j<length (bricks g). bs' = take j (bricks g) @ drop (Suc j) (bricks g)))"
    by blast
  have 2: "bricks g = lower @ k' # upper \<and>
    pass_all c (snd (detect_collision c (ball g) (PaddleObj (paddle g)) True)) (rev upper)
      = Some b2 \<and>
    detect_collision c b2 (BrickObj k') False = (True, b3) \<longrightarrow>
      check_collision c g = Inr (g\<lparr>ball := b3, bricks := lower @ upper\<rparr>)"
    using check_collision_first_hit by blast
  have 3: "pass_all c (snd (detect_collision c (ball g) (PaddleObj (paddle g)) True))
      (rev (bricks g)) = Some b2 \<longrightarrow>
      check_collision c g = Inr (g\<lparr>ball := b2, bricks := bricks g\<rparr>)"
    using check_collision_no_hit by blast
  have 4: "detect_collision c b (BrickObj k) False = (True, b1) \<longrightarrow>
      scan_bricks c (length (bs @ [k])) b (bs @ [k]) = Inr (b1, bs)"
    by (simp only: scan_bricks_top) simp
  have 5: "detect_collision c b (BrickObj k) False = (False, b1) \<longrightarrow>
      scan_bricks c (length (bs @ [k])) b (bs @ [k]) =
        (case scan_bricks c (length bs) b1 bs of
           Inl e \<Rightarrow> Inl e
         | Inr (b2, bs') \<Rightarrow> Inr (b2, bs' @ [k]))"
    by (simp only: scan_bricks_top) simp
  have 6: "update c i g = Inr g' \<longrightarrow>
      length (bricks g') \<le> length (bricks g) \<or>
      (\<exists>s\<in>set (stages g). bricks g' = map new_Brick s)"
    using update_bricks by blast
  from 1 2 3 4 5 6 show ?thesis by blast
qed

text \<open>
  The ball over the first two of three bricks: the call passes the third, removes the
  second and leaves the first, which also overlaps the ball. With the first two bricks
  only, the top brick collides and is the one removed. With the third brick only,
  nothing is removed.
\<close>

theorem C3_one_brick_per_call_witness:
  "check_collision sample_env three_brick_game
     = Inr (three_brick_game
              \<lparr>ball := (ball three_brick_game)\<lparr>speed_y := 2\<rparr>,
               bricks := [\<lparr>Brick.x = 90, y = 45, brick_type = 1\<rparr>,
                          \<lparr>Brick.x = 200, y = 48, brick_type = 2\<rparr>]\<rparr>) \<and>
   check_collision sample_env
       (three_brick_game\<lparr>bricks := [\<lparr>Brick.x = 90, y = 45, brick_type = 1\<rparr>,
                                    \<lparr>Brick.x = 80, y = 48, brick_type = 1\<rparr>]\<rparr>)
     = Inr (three_brick_game
              \<lparr>ball := (ball three_brick_game)\<lparr>speed_y := 2\<rparr>,
               bricks := [\<lparr>Brick.x = 90, y = 45, brick_type = 1\<rparr>]\<rparr>) \<and>
   check_collision sample_env
       (three_brick_game\<lparr>bricks := [\<lparr>Brick.x = 200, y = 48, brick_type = 2\<rparr>]\<rparr>)
     = Inr (three_brick_game\<lparr>bricks := [\<lparr>Brick.x = 200, y = 48, brick_type = 2\<rparr>]\<rparr>) \<and>
   detect_collision sample_env (ball three_brick_game)
       (BrickObj \<lparr>Brick.x = 90, y = 45, brick_type = 1\<rparr>) False
     = (True, (ball three_brick_game)\<lparr>speed_y := 2\<rparr>) \<and>
   scan_bricks sample_env 2 (ball three_brick_game)
       [\<lparr>Brick.x = 90, y = 45, brick_type = 1\<rparr>, \<lparr>Brick.x = 80, y = 48, brick_type = 1\<rparr>]
     = Inr ((ball three_brick_game)\<lparr>speed_y := 2\<rparr>, [\<lparr>Brick.x = 90, y = 45, brick_type = 1\<rparr>]) \<and>
   scan_bricks sample_env 3 (ball three_brick_game) (bricks three_brick_game)
     = Inr ((ball three_brick_game)\<lparr>speed_y := 2\<rparr>,
            [\<lparr>Brick.x = 90, y = 45, brick_type = 1\<rparr>, \<lparr>Brick.x = 200, y = 48, brick_type = 2\<rparr>]) \<and>
   (\<exists>g'. update sample_env (idle 0) three_brick_game = Inr g' \<and> length (bricks g') = 2)"
proof -
  let ?g = three_brick_game
  let ?b = "ball three_brick_game"
  let ?b' = "(ball three_brick_game)\<lparr>speed_y := 2\<rparr>"
  let ?k0 = "\<lparr>Brick.x = 90, y = 45, brick_type = 1\<rparr>"
  let ?k1 = "\<lparr>Brick.x = 80, y = 48, brick_type = 1\<rparr>"
  let ?k2 = "\<lparr>Brick.x = 200, y = 48, brick_type = 2\<rparr>"
  have pd: "snd (detect_collision sample_env (ball (?g\<lparr>bricks := ks\<rparr>))
                   (PaddleObj (paddle (?g\<lparr>bricks := ks\<rparr>))) True) = ?b" for ks
    by (simp add: sample_defs three_brick_game_def)
  have pd0: "snd (detect_collision sample_env (ball ?g) (PaddleObj (paddle ?g)) True) = ?b"
    by (simp add: sample_defs three_brick_game_def)
  have d0: "detect_collision sample_env ?b (BrickObj ?k0) False = (True, ?b')"
    by (simp add: sample_defs three_brick_game_def)
  have d1: "detect_collision sample_env ?b (BrickObj ?k1) False = (True, ?b')"
    by (simp add: sample_defs three_brick_game_def)
  have d2: "detect_collision sample_env ?b (BrickObj ?k2) False = (False, ?b)"
    by (simp add: sample_defs three_brick_game_def)
  have p2: "pass_all sample_env ?b (rev [?k2]) = Some ?b" using d2 by simp
  have p0: "pass_all sample_env ?b (rev []) = Some ?b" by simp
  have bs: "bricks ?g = [?k0] @ ?k1 # [?k2]" "bricks ?g = [?k0, ?k1, ?k2]"
    by (simp_all add: three_brick_game_def)
  have bs2: "bricks (?g\<lparr>bricks := [?k0, ?k1]\<rparr>) = [?k0] @ ?k1 # []" by simp
  have s: "?g\<lparr>bricks := ks, ball := bb, bricks := ks'\<rparr> = ?g\<lparr>ball := bb, bricks := ks'\<rparr>"
    "?g\<lparr>bricks := ks, ball := ?b, bricks := ks\<rparr> = ?g\<lparr>bricks := ks\<rparr>" for ks ks' bb
    by (simp_all add: three_brick_game_def)
  have u: "\<exists>g'. update sample_env (idle 0) ?g = Inr g' \<and> length (bricks g') = 2"
    by (simp add: sample_defs method_defs three_brick_game_def eval_nat_numeral)
  then obtain g' where g': "update sample_env (idle 0) ?g = Inr g'"
    "length (bricks g') = 2" by blast
  note mid = C3_one_brick_per_call
    [where c = sample_env and g = ?g and lower = "[?k0]" and k' = ?k1 and upper = "[?k2]"
       and ?b2.0 = ?b and ?b3.0 = ?b' and b = ?b and k = ?k1 and bs = "[?k0]"
       and ?b1.0 = ?b' and i = "idle 0" and g' = g']
  note top = C3_one_brick_per_call
    [where c = sample_env and g = "?g\<lparr>bricks := [?k0, ?k1]\<rparr>" and lower = "[?k0]" and k' = ?k1
       and upper = "[]" and ?b2.0 = ?b and ?b3.0 = ?b' and b = ?b and k = ?k2
       and bs = "[?k0, ?k1]" and ?b1.0 = ?b and i = "idle 0" and g' = g']
  note none = C3_one_brick_per_call
    [where c = sample_env and g = "?g\<lparr>bricks := [?k2]\<rparr>" and lower = "[]" and k' = ?k2
       and upper = "[]" and ?b2.0 = ?b and ?b3.0 = ?b and b = ?b and k = ?k2
       and bs = "[?k0, ?k1]" and ?b1.0 = ?b and i = "idle 0" and g' = g']
  from mid bs(1) p2 d1 pd0
  have c1: "check_collision sample_env ?g = Inr (?g\<lparr>ball := ?b', bricks := [?k0] @ [?k2]\<rparr>)"
    by simp
  from top bs2 p0 d1 pd [of "[?k0, ?k1]"]
  have c2: "check_collision sample_env (?g\<lparr>bricks := [?k0, ?k1]\<rparr>)
      = Inr (?g\<lparr>bricks := [?k0, ?k1], ball := ?b', bricks := [?k0] @ []\<rparr>)"
    by simp
  have p2': "pass_all sample_env ?b (rev (bricks (?g\<lparr>bricks := [?k2]\<rparr>))) = Some ?b"
    using d2 by simp
  from none p2' pd [of "[?k2]"]
  have c3: "check_collision sample_env (?g\<lparr>bricks := [?k2]\<rparr>)
      = Inr (?g\<lparr>bricks := [?k2], ball := ?b, bricks := bricks (?g\<lparr>bricks := [?k2]\<rparr>)\<rparr>)"
    by simp
  have e: "length ([?k0] @ [?k1]) = 2" "[?k0] @ [?k1] = [?k0, ?k1]"
    "length ([?k0, ?k1] @ [?k2]) = 3" "[?k0, ?k1] @ [?k2] = [?k0, ?k1, ?k2]"
    "length [?k0, ?k1] = 2" "length [?k0, ?k1, ?k2] = 3"
    by simp_all
  from mid d1
  have "scan_bricks sample_env (length ([?k0] @ [?k1])) ?b ([?k0] @ [?k1]) = Inr (?b', [?k0])"
    by blast
  then have s2: "scan_bricks sample_env 2 ?b [?k0, ?k1] = Inr (?b', [?k0])"
    unfolding e .
  from top d2
  have "scan_bricks sample_env (length ([?k0, ?k1] @ [?k2])) ?b ([?k0, ?k1] @ [?k2])
          = (case scan_bricks sample_env (length [?k0, ?k1]) ?b [?k0, ?k1] of
               Inl e \<Rightarrow> Inl e
             | Inr (b2, bs') \<Rightarrow> Inr (b2, bs' @ [?k2]))"
    by blast
  then have s3: "scan_bricks sample_env 3 ?b [?k0, ?k1, ?k2] = Inr (?b', [?k0, ?k2])"
    by (simp only: e s2 sum.case prod.case append_Cons append_Nil)
  from c1 c2 c3 d0 s2 s3 u show ?thesis unfolding bs(2) by (simp add: s)
qed

text \<open>
  Claim C4. In every reachable state the stage counter is between 1 and the number of
  stages, and neither \<^verbatim>\<open>_next_stage\<close> nor a frame raises \<^verbatim>\<open>IndexError\<close>. When
  the counter equals the number of stages, \<^verbatim>\<open>_next_stage\<close> sets the state to WIN and
  changes nothing else, and so does any positive number of calls in a row.
\<close>

theorem C4_stage_counter:
  "(reachable c g \<longrightarrow>
      1 \<le> current_stage g \<and> current_stage g \<le> int (length (stages g)) \<and>
      (\<exists>g'. next_stage g = Inr g') \<and> (\<exists>g'. update c i g = Inr g')) \<and>
   (current_stage g = int (length (stages g)) \<longrightarrow>
      next_stage g = Inr (g\<lparr>current_game_state := WIN\<rparr>) \<and>
      repeat_next_stage (Suc n) g = Inr (g\<lparr>current_game_state := WIN\<rparr>))"
proof (intro conjI impI)
  assume r: "reachable c g"
  then have ok: "game_ok g" by (rule reachable_game_ok)
  then show "1 \<le> current_stage g" "current_stage g \<le> int (length (stages g))"
    by (simp_all add: game_ok_def stage_ok_def)
  from ok show "\<exists>g'. update c i g = Inr g'" using game_ok_update [of g c i] by blast
  show "\<exists>g'. next_stage g = Inr g'"
  proof (cases "current_stage g < int (length (stages g))")
    case True
    moreover have "0 \<le> current_stage g" using ok by (simp add: game_ok_def stage_ok_def)
    ultimately show ?thesis by (simp add: next_stage_advance)
  next
    case False
    then show ?thesis by (simp add: next_stage_last)
  qed
next
  assume "current_stage g = int (length (stages g))"
  then show "next_stage g = Inr (g\<lparr>current_game_state := WIN\<rparr>)"
    "repeat_next_stage (Suc n) g = Inr (g\<lparr>current_game_state := WIN\<rparr>)"
    by (simp_all add: next_stage_last repeat_next_stage_WIN)
qed

text \<open>The single-stage game just before its last brick falls: three calls in a row give WIN.\<close>

theorem C4_stage_counter_witness:
  "reachable sample_env last_brick_game \<and>
   current_stage last_brick_game = int (length (stages last_brick_game)) \<and>
   current_stage last_brick_game = 1 \<and>
   repeat_next_stage 3 last_brick_game = Inr (last_brick_game\<lparr>current_game_state := WIN\<rparr>)"
proof -
  have r: "reachable sample_env last_brick_game"
    using play_last_brick_game by (rule play_reachable)
  have e: "current_stage last_brick_game = int (length (stages last_brick_game))"
    by (simp add: last_brick_game_def low_stage_def)
  have o: "current_stage last_brick_game = 1" by (simp add: last_brick_game_def)
  from C4_stage_counter [of sample_env last_brick_game "idle 0" 2] r e o
  show ?thesis by simp
qed

text \<open>
  Claim C5. A frame in the DROPPED state returns normally and takes exactly one life, the
  score unchanged. If the new number of lives is positive the state is READY and the ball
  is reset (at rest, trail empty, in bounds, above the paddle); otherwise the state is
  GAME_OVER and the ball is untouched. With one life before the frame, the lives are 0
  and the state is GAME_OVER.
\<close>

theorem C5_dropped_frame:
  assumes "current_game_state g = DROPPED"
  shows "\<exists>g'. update c i g = Inr g' \<and>
     lives (stats g') = lives (stats g) - 1 \<and> score (stats g') = score (stats g) \<and>
     (0 < lives (stats g) - 1 \<longrightarrow>
        current_game_state g' = READY \<and>
        speed_x (ball g') = 0 \<and> speed_y (ball g') = 0 \<and> trails (ball g') = [] \<and>
        \<not> out_of_bounds (ball g') \<and>
        Ball.y (ball g') = Paddle.y (paddle g') - 2 * Ball.r (ball g')) \<and>
     (lives (stats g) - 1 \<le> 0 \<longrightarrow> current_game_state g' = GAME_OVER \<and> ball g' = ball g) \<and>
     (lives (stats g) = 1 \<longrightarrow> lives (stats g') = 0 \<and> current_game_state g' = GAME_OVER)"
  unfolding update_DROPPED [OF assms]
  by (simp add: update_dropped_state_def Let_def reset_ball_ball)

text \<open>The fallen ball with one life left, and with three.\<close>

theorem C5_dropped_frame_witness:
  "update sample_env (idle 0) (fallen_game\<lparr>stats := \<lparr>score = 0, lives = 1\<rparr>\<rparr>)
     = Inr (fallen_game\<lparr>stats := \<lparr>score = 0, lives = 0\<rparr>, current_game_state := GAME_OVER\<rparr>) \<and>
   (\<exists>g'. update sample_env (idle 0) (fallen_game\<lparr>stats := \<lparr>score = 0, lives = 3\<rparr>\<rparr>) = Inr g' \<and>
         lives (stats g') = 2 \<and> current_game_state g' = READY \<and> \<not> out_of_bounds (ball g'))"
proof -
  have d: "current_game_state (fallen_game\<lparr>stats := s\<rparr>) = DROPPED" for s
    by (simp add: fallen_game_def)
  have 1: "update sample_env (idle 0) (fallen_game\<lparr>stats := \<lparr>score = 0, lives = 1\<rparr>\<rparr>)
     = Inr (fallen_game\<lparr>stats := \<lparr>score = 0, lives = 0\<rparr>, current_game_state := GAME_OVER\<rparr>)"
    by (simp add: sample_defs method_defs fallen_game_def)
  from C5_dropped_frame [where g = "fallen_game\<lparr>stats := \<lparr>score = 0, lives = 3\<rparr>\<rparr>"
      and c = sample_env and i = "idle 0", OF d]
  have 2: "\<exists>g'. update sample_env (idle 0) (fallen_game\<lparr>stats := \<lparr>score = 0, lives = 3\<rparr>\<rparr>) = Inr g' \<and>
         lives (stats g') = 2 \<and> current_game_state g' = READY \<and> \<not> out_of_bounds (ball g')"
    by auto
  from 1 2 show ?thesis by blast
qed

text \<open>
  Claim C6. \<^verbatim>\<open>_launch_ball\<close> sets the velocity to
  \<open>(cos (a * pi / 180) * 2.5, - sin (a * pi / 180) * 2.5)\<close> for the indicator angle \<open>a\<close>
  in degrees, whatever the velocity was before, leaves the position, and sets the state
  to RUNNING. So the launch is \<open>(2.5, 0)\<close> at 0 degrees, \<open>(0, - 2.5)\<close> at 90,
  \<open>(- 2.5, 0)\<close> at 180, has the vertical part \<open>- 1.25\<close> at 30 and the horizontal part
  \<open>1.25\<close> at 60. Right after a reset the angle is 0; after 45 READY updates it is 90
  and the ball is launched straight up. In the READY state a launch press makes
  \<^verbatim>\<open>_check_input\<close> do exactly this. Python floats are read as real numbers.
\<close>

theorem C6_launch_ball:
  "speed_x (ball (launch_ball g)) = cos (real_of_int (angle g) * pi / 180) * 2.5 \<and>
   speed_y (ball (launch_ball g)) = - sin (real_of_int (angle g) * pi / 180) * 2.5 \<and>
   current_game_state (launch_ball g) = RUNNING \<and>
   Ball.x (ball (launch_ball g)) = Ball.x (ball g) \<and>
   Ball.y (ball (launch_ball g)) = Ball.y (ball g) \<and>
   (angle g = 0 \<longrightarrow>
      speed_x (ball (launch_ball g)) = 2.5 \<and> speed_y (ball (launch_ball g)) = 0) \<and>
   (angle g = 30 \<longrightarrow>
      speed_x (ball (launch_ball g)) = sqrt 3 / 2 * 2.5 \<and>
      speed_y (ball (launch_ball g)) = - 1.25) \<and>
   (angle g = 60 \<longrightarrow>
      speed_x (ball (launch_ball g)) = 1.25 \<and>
      speed_y (ball (launch_ball g)) = - (sqrt 3 / 2) * 2.5) \<and>
   (angle g = 90 \<longrightarrow>
      speed_x (ball (launch_ball g)) = 0 \<and> speed_y (ball (launch_ball g)) = - 2.5) \<and>
   (angle g = 180 \<longrightarrow>
      speed_x (ball (launch_ball g)) = - 2.5 \<and> speed_y (ball (launch_ball g)) = 0) \<and>
   speed_x (ball (launch_ball (reset_ball g))) = 2.5 \<and>
   speed_y (ball (launch_ball (reset_ball g))) = 0 \<and>
   speed_x (ball (launch_ball ((update_ready_state ^^ 45) (reset_ball g)))) = 0 \<and>
   speed_y (ball (launch_ball ((update_ready_state ^^ 45) (reset_ball g)))) = - 2.5 \<and>
   check_input (click mx) (g\<lparr>current_game_state := READY\<rparr>)
     = Inr (launch_ball (g\<lparr>current_game_state := READY\<rparr>))"
proof -
  have v: "speed_x (ball (launch_ball h)) = cos (real_of_int (angle h) * pi / 180) * 2.5"
    "speed_y (ball (launch_ball h)) = - sin (real_of_int (angle h) * pi / 180) * 2.5" for h
    by (simp_all add: launch_ball_def radians_def Let_def)
  have o: "current_game_state (launch_ball g) = RUNNING"
    "Ball.x (ball (launch_ball g)) = Ball.x (ball g)"
    "Ball.y (ball (launch_ball g)) = Ball.y (ball g)"
    by (simp_all add: launch_ball_def Let_def)
  have a0: "angle g = 0 \<longrightarrow>
      speed_x (ball (launch_ball g)) = 2.5 \<and> speed_y (ball (launch_ball g)) = 0"
    by (simp add: v)
  have a30: "angle g = 30 \<longrightarrow>
      speed_x (ball (launch_ball g)) = sqrt 3 / 2 * 2.5 \<and>
      speed_y (ball (launch_ball g)) = - 1.25"
    by (simp add: v cos_30 sin_30)
  have a60: "angle g = 60 \<longrightarrow>
      speed_x (ball (launch_ball g)) = 1.25 \<and>
      speed_y (ball (launch_ball g)) = - (sqrt 3 / 2) * 2.5"
    by (simp add: v cos_60 sin_60)
  have a90: "angle g = 90 \<longrightarrow>
      speed_x (ball (launch_ball g)) = 0 \<and> speed_y (ball (launch_ball g)) = - 2.5"
    by (simp add: v)
  have a180: "angle g = 180 \<longrightarrow>
      speed_x (ball (launch_ball g)) = - 2.5 \<and> speed_y (ball (launch_ball g)) = 0"
    by (simp add: v)
  have r0: "speed_x (ball (launch_ball (reset_ball g))) = 2.5"
    "speed_y (ball (launch_ball (reset_ball g))) = 0"
    by (simp_all add: v)
  have "angle ((update_ready_state ^^ 45) (reset_ball g)) = 90"
    using ready_frames_rising [of 45 g] by simp
  then have r45: "speed_x (ball (launch_ball ((update_ready_state ^^ 45) (reset_ball g)))) = 0"
    "speed_y (ball (launch_ball ((update_ready_state ^^ 45) (reset_ball g)))) = - 2.5"
    by (simp_all add: v)
  have ci: "check_input (click mx) (g\<lparr>current_game_state := READY\<rparr>)
     = Inr (launch_ball (g\<lparr>current_game_state := READY\<rparr>))"
    by (simp add: launch_ball_def check_input_def click_def Let_def)
  from v [of g] o a0 a30 a60 a90 a180 r0 r45 ci show ?thesis by blast
qed

text \<open>Launching 45 and 15 READY updates after a reset of the fallen ball.\<close>

theorem C6_launch_ball_witness:
  "angle ((update_ready_state ^^ 45) (reset_ball fallen_game)) = 90 \<and>
   speed_x (ball (launch_ball ((update_ready_state ^^ 45) (reset_ball fallen_game)))) = 0 \<and>
   speed_y (ball (launch_ball ((update_ready_state ^^ 45) (reset_ball fallen_game)))) = - 2.5 \<and>
   angle ((update_ready_state ^^ 15) (reset_ball fallen_game)) = 30 \<and>
   speed_y (ball (launch_ball ((update_ready_state ^^ 15) (reset_ball fallen_game)))) = - 1.25 \<and>
   current_game_state (launch_ball ((update_ready_state ^^ 45) (reset_ball fallen_game)))
     = RUNNING"
proof -
  have a: "angle ((update_ready_state ^^ 45) (reset_ball fallen_game)) = 90"
    "angle ((update_ready_state ^^ 15) (reset_ball fallen_game)) = 30"
    using ready_frames_rising [of 45 fallen_game] ready_frames_rising [of 15 fallen_game]
    by simp_all
  from C6_launch_ball [of "(update_ready_state ^^ 45) (reset_ball fallen_game)"]
       C6_launch_ball [of "(update_ready_state ^^ 15) (reset_ball fallen_game)"] a
  show ?thesis by blast
qed

text \<open>
  Claim C7. With the cycle speed 2, which every reachable state has, the READY update
  adds twice the direction to the angle and reverses the direction exactly when the new
  angle is 0 or 180. A frame that starts in READY with no launch press runs this update.
  From the configuration of a reset, after any number of READY updates the angle is
  within 0 and 180; whenever it is 180 the direction is \<open>-1\<close> and the next update gives
  178. The angle is 180 after 90 updates; the direction is still 1 after 89 and is
  \<open>-1\<close> after 90.
\<close>

theorem C7_indicator:
  "(angle_cycle_speed g = 2 \<longrightarrow>
      angle (update_ready_state g) = angle g + angle_direction g * 2 \<and>
      angle_direction (update_ready_state g) =
        (if angle (update_ready_state g) = 0 \<or> angle (update_ready_state g) = 180
         then - angle_direction g else angle_direction g)) \<and>
   (reachable c g \<longrightarrow> angle_cycle_speed g = 2 \<and> 0 \<le> angle g \<and> angle g \<le> 180) \<and>
   (current_game_state g = READY \<and> \<not> MOUSE_BUTTON_LEFT i \<and> \<not> KEY_SPACE i \<longrightarrow>
      update c i g = Inr (update_ready_state (g\<lparr>paddle := Paddle_update c i (paddle g)\<rparr>))) \<and>
   angle_cycle_speed ((update_ready_state ^^ n) (reset_ball g)) = 2 \<and>
   0 \<le> angle ((update_ready_state ^^ n) (reset_ball g)) \<and>
   angle ((update_ready_state ^^ n) (reset_ball g)) \<le> 180 \<and>
   (angle ((update_ready_state ^^ n) (reset_ball g)) = 180 \<longrightarrow>
      angle_direction ((update_ready_state ^^ n) (reset_ball g)) = - 1 \<and>
      angle ((update_ready_state ^^ Suc n) (reset_ball g)) = 178) \<and>
   angle ((update_ready_state ^^ 90) (reset_ball g)) = 180 \<and>
   angle_direction ((update_ready_state ^^ 89) (reset_ball g)) = 1 \<and>
   angle_direction ((update_ready_state ^^ 90) (reset_ball g)) = - 1"
proof -
  let ?h = "(update_ready_state ^^ n) (reset_ball g)"
  have ok: "indicator_ok ?h" by (rule indicator_ok_ready_frames)
  have 1: "angle_cycle_speed g = 2 \<longrightarrow>
      angle (update_ready_state g) = angle g + angle_direction g * 2 \<and>
      angle_direction (update_ready_state g) =
        (if angle (update_ready_state g) = 0 \<or> angle (update_ready_state g) = 180
         then - angle_direction g else angle_direction g)"
    by (auto simp: update_ready_state_indicator)
  have 2: "reachable c g \<longrightarrow> angle_cycle_speed g = 2 \<and> 0 \<le> angle g \<and> angle g \<le> 180"
    using reachable_game_ok [of c g] by (auto simp: game_ok_def indicator_ok_def)
  have 3: "current_game_state g = READY \<and> \<not> MOUSE_BUTTON_LEFT i \<and> \<not> KEY_SPACE i \<longrightarrow>
      update c i g = Inr (update_ready_state (g\<lparr>paddle := Paddle_update c i (paddle g)\<rparr>))"
    by (simp add: update_READY_idle)
  have 4: "angle_cycle_speed ?h = 2" "0 \<le> angle ?h" "angle ?h \<le> 180"
    using ok by (simp_all add: indicator_ok_def)
  have 5: "angle ?h = 180 \<longrightarrow> angle_direction ?h = - 1 \<and>
      angle ((update_ready_state ^^ Suc n) (reset_ball g)) = 178"
    using ok by (auto simp: indicator_ok_def update_ready_state_indicator)
  have 6: "angle ((update_ready_state ^^ 90) (reset_ball g)) = 180"
    "angle_direction ((update_ready_state ^^ 89) (reset_ball g)) = 1"
    "angle_direction ((update_ready_state ^^ 90) (reset_ball g)) = - 1"
    using ready_frames_rising [of 90 g] ready_frames_rising [of 89 g] by simp_all
  from 1 2 3 4 5 6 show ?thesis by blast
qed

text \<open>Ninety READY updates after a reset.\<close>

theorem C7_indicator_witness:
  "angle ((update_ready_state ^^ 90) (reset_ball fallen_game)) = 180 \<and>
   angle_direction ((update_ready_state ^^ 90) (reset_ball fallen_game)) = - 1 \<and>
   angle ((update_ready_state ^^ Suc 90) (reset_ball fallen_game)) = 178 \<and>
   angle (update_ready_state (reset_ball fallen_game)) = 2 \<and>
   reachable sample_env fallen_game \<and> angle fallen_game = 0"
proof -
  have r: "reachable sample_env fallen_game"
    using play_fallen_game by (rule play_reachable)
  have s: "angle_cycle_speed (reset_ball fallen_game) = 2" "angle (reset_ball fallen_game) = 0"
    "angle_direction (reset_ball fallen_game) = 1" "angle fallen_game = 0"
    by (simp_all add: fallen_game_def)
  from C7_indicator [of "reset_ball fallen_game" sample_env "idle 0" 90]
       C7_indicator [of fallen_game sample_env "idle 0" 90] r s
  show ?thesis by simp
qed



text \<open>
  Claim C9. After \<^verbatim>\<open>_reset_ball\<close>, for any ball before it: the velocity is \<open>(0, 0)\<close>,
  the trail is empty, \<^verbatim>\<open>out_of_bounds\<close> is false, and \<open>y\<close> is the paddle's \<open>y\<close> minus
  twice the radius; radius and paddle are unchanged.
\<close>

theorem C9_reset_ball:
  "speed_x (ball (reset_ball g)) = 0 \<and> speed_y (ball (reset_ball g)) = 0 \<and>
   trails (ball (reset_ball g)) = [] \<and>
   out_of_bounds (ball (reset_ball g)) = False \<and>
   Ball.y (ball (reset_ball g)) = Paddle.y (paddle g) - 2 * Ball.r (ball g) \<and>
   Ball.r (ball (reset_ball g)) = Ball.r (ball g) \<and>
   paddle (reset_ball g) = paddle g"
  by (simp add: reset_ball_ball)

text \<open>Resetting the fallen ball.\<close>

theorem C9_reset_ball_witness:
  "ball (reset_ball fallen_game) =
     \<lparr>Ball.x = 393, y = 186, r = 2, speed_x = 0, speed_y = 0, trails = [],
      out_of_bounds = False\<rparr>"
  using C9_reset_ball [of fallen_game]
  by (simp add: fallen_game_def reset_ball_ball)

text \<open>
  Claim C10. A new game starts with score 0 and lives 0. In every reachable state that is
  DROPPED the lives are 0, and the frame yields lives \<open>-1\<close> and the state GAME_OVER,
  never READY.
\<close>

theorem C10_first_drop_ends_game:
  "(start_new_game g0 = Inr g1 \<longrightarrow> score (stats g1) = 0 \<and> lives (stats g1) = 0) \<and>
   (reachable c g \<and> current_game_state g = DROPPED \<longrightarrow>
      lives (stats g) = 0 \<and>
      (\<exists>g'. update c i g = Inr g' \<and> lives (stats g') = - 1 \<and>
            current_game_state g' = GAME_OVER))"
proof (intro conjI impI)
  assume "start_new_game g0 = Inr g1"
  then show "score (stats g1) = 0" "lives (stats g1) = 0"
    by (auto simp: start_new_game_eq new_GameStats_def split: if_splits)
next
  assume a: "reachable c g \<and> current_game_state g = DROPPED"
  then have "stats_ok g" using reachable_game_ok [of c g] by (simp add: game_ok_def)
  with a show l: "lives (stats g) = 0" by (simp add: stats_ok_def)
  from a have d: "current_game_state g = DROPPED" by simp
  show "\<exists>g'. update c i g = Inr g' \<and> lives (stats g') = - 1 \<and> current_game_state g' = GAME_OVER"
    unfolding update_DROPPED [OF d] using l
    by (simp add: update_dropped_state_def Let_def)
qed

text \<open>The first drop of the game on the concrete playfield.\<close>

theorem C10_first_drop_ends_game_witness:
  "reachable sample_env fallen_game \<and> current_game_state fallen_game = DROPPED \<and>
   lives (stats fallen_game) = 0 \<and>
   (\<exists>g'. update sample_env (idle 0) fallen_game = Inr g' \<and> lives (stats g') = - 1 \<and>
         current_game_state g' = GAME_OVER)"
proof -
  have r: "reachable sample_env fallen_game"
    using play_fallen_game by (rule play_reachable)
  have d: "current_game_state fallen_game = DROPPED" by (simp add: fallen_game_def)
  from C10_first_drop_ends_game [of undefined undefined sample_env fallen_game "idle 0"] r d
  show ?thesis by blast
qed

end
